theory Spec2Isabelle
  imports Complex_Main "HOL-Library.Multiset" "HOL-Library.Sublist" "HOL-Library.AList"
begin

section \<open>JavaScript values used by the hooks\<close>

text \<open>
  A JavaScript number is modelled as a real number or one of the three non-finite values.
  The arithmetic below follows IEEE 754 for \<open>NaN\<close> and the infinities; rounding and the
  sign of zero are not modelled, so a finite result is the exact real result.
\<close>

datatype jsnum = NaN | PInf | NInf | Fin real

fun jneg :: "jsnum \<Rightarrow> jsnum" where
  "jneg NaN = NaN"
| "jneg PInf = NInf"
| "jneg NInf = PInf"
| "jneg (Fin a) = Fin (- a)"

fun jadd :: "jsnum \<Rightarrow> jsnum \<Rightarrow> jsnum" where
  "jadd NaN _ = NaN"
| "jadd _ NaN = NaN"
| "jadd PInf NInf = NaN"
| "jadd NInf PInf = NaN"
| "jadd PInf _ = PInf"
| "jadd _ PInf = PInf"
| "jadd NInf _ = NInf"
| "jadd _ NInf = NInf"
| "jadd (Fin a) (Fin b) = Fin (a + b)"

definition jsub :: "jsnum \<Rightarrow> jsnum \<Rightarrow> jsnum" where
  "jsub a b = jadd a (jneg b)"

text \<open>The sign of a number: \<open>None\<close> for \<open>NaN\<close>, otherwise \<open>-1\<close>, \<open>0\<close> or \<open>1\<close>.\<close>

fun jsign :: "jsnum \<Rightarrow> int option" where
  "jsign NaN = None"
| "jsign PInf = Some 1"
| "jsign NInf = Some (- 1)"
| "jsign (Fin a) = Some (if a < 0 then - 1 else if a = 0 then 0 else 1)"

definition inf_of_sign :: "int \<Rightarrow> jsnum" where
  "inf_of_sign s = (if s < 0 then NInf else if s = 0 then NaN else PInf)"

fun jmul :: "jsnum \<Rightarrow> jsnum \<Rightarrow> jsnum" where
  "jmul (Fin a) (Fin b) = Fin (a * b)"
| "jmul a b = (case (jsign a, jsign b) of
      (Some s, Some t) \<Rightarrow> inf_of_sign (s * t)
    | _ \<Rightarrow> NaN)"

fun jdiv :: "jsnum \<Rightarrow> jsnum \<Rightarrow> jsnum" where
  "jdiv NaN _ = NaN"
| "jdiv _ NaN = NaN"
| "jdiv (Fin a) (Fin b) =
     (if b = 0 then (if a = 0 then NaN else if a < 0 then NInf else PInf) else Fin (a / b))"
| "jdiv (Fin a) _ = Fin 0"
| "jdiv PInf (Fin b) = (if b < 0 then NInf else PInf)"
| "jdiv NInf (Fin b) = (if b < 0 then PInf else NInf)"
| "jdiv _ _ = NaN"

text \<open>\<open>a < b\<close> on numbers: false as soon as one side is \<open>NaN\<close>.\<close>

fun jlt :: "jsnum \<Rightarrow> jsnum \<Rightarrow> bool" where
  "jlt NaN _ = False"
| "jlt _ NaN = False"
| "jlt (Fin a) (Fin b) = (a < b)"
| "jlt NInf b = (b \<noteq> NInf)"
| "jlt a PInf = (a \<noteq> PInf)"
| "jlt _ _ = False"

text \<open>\<open>a >= b\<close>: false with a \<open>NaN\<close>, otherwise the negation of \<open>a < b\<close>.\<close>

definition jge :: "jsnum \<Rightarrow> jsnum \<Rightarrow> bool" where
  "jge a b = (a \<noteq> NaN \<and> b \<noteq> NaN \<and> \<not> jlt a b)"

text \<open>Truthiness of a number: \<open>0\<close> and \<open>NaN\<close> are falsy.\<close>

fun truthy_num :: "jsnum \<Rightarrow> bool" where
  "truthy_num NaN = False"
| "truthy_num (Fin a) = (a \<noteq> 0)"
| "truthy_num _ = True"

text \<open>
  Strings are lists of ASCII characters. \<open>toUpperCase\<close> maps \<open>a\<close> .. \<open>z\<close> to
  \<open>A\<close> .. \<open>Z\<close> and leaves every other character alone; \<open>charCodeAt\<close> is the
  character code, \<open>NaN\<close> past the end of the string.
\<close>

definition upper_char :: "char \<Rightarrow> char" where
  "upper_char c =
     (if 97 \<le> (of_char c :: nat) \<and> (of_char c :: nat) \<le> 122
      then char_of ((of_char c :: nat) - 32) else c)"

definition toUpperCase :: "string \<Rightarrow> string" where
  "toUpperCase s = map upper_char s"

definition charCodeAt :: "string \<Rightarrow> nat \<Rightarrow> jsnum" where
  "charCodeAt s i = (if i < length s then Fin (real (of_char (s ! i) :: nat)) else NaN)"

definition is_digit :: "char \<Rightarrow> bool" where
  "is_digit c = (48 \<le> (of_char c :: nat) \<and> (of_char c :: nat) \<le> 57)"

text \<open>
  \<open>parseInt(s[i])\<close>: the argument is one character (or \<open>undefined\<close> past the end), so the
  result is the digit's value, and \<open>NaN\<close> for everything else.
\<close>

definition parseInt_at :: "string \<Rightarrow> nat \<Rightarrow> jsnum" where
  "parseInt_at s i =
     (if i < length s \<and> is_digit (s ! i)
      then Fin (real ((of_char (s ! i) :: nat) - 48)) else NaN)"

section \<open>Locator decoding: \<open>gridToLatLon\<close>\<close>

record latlon =
  lat :: jsnum
  lon :: jsnum

text \<open>
  \<open>gridToLatLon\<close> of \<open>src/hooks/usePSKReporter.js\<close>. The argument is \<open>None\<close> when the
  locator is absent; the empty string is falsy, so \<open>!grid\<close> holds for it too. The length
  test for the sub-square reads the argument as given, the characters are read from the
  upper-cased copy \<open>g\<close>.
\<close>

definition gridToLatLon :: "string option \<Rightarrow> latlon option" where
  "gridToLatLon grid =
     (case grid of
        None \<Rightarrow> None
      | Some s \<Rightarrow>
          if s = [] \<or> length s < 4 then None
          else
            let g = toUpperCase s;
                lon0 = jsub (jmul (jsub (charCodeAt g 0) (Fin 65)) (Fin 20)) (Fin 180);
                lat0 = jsub (jmul (jsub (charCodeAt g 1) (Fin 65)) (Fin 10)) (Fin 90);
                lonMin = jmul (parseInt_at g 2) (Fin 2);
                latMin = jmul (parseInt_at g 3) (Fin 1);
                finalLon = jadd (jadd lon0 lonMin) (Fin 1);
                finalLat = jadd (jadd lat0 latMin) (Fin 0.5)
            in if length s \<ge> 6 then
                 let lonSec = jmul (jsub (charCodeAt g 4) (Fin 65)) (jdiv (Fin 2) (Fin 24));
                     latSec = jmul (jsub (charCodeAt g 5) (Fin 65)) (jdiv (Fin 1) (Fin 24))
                 in Some \<lparr> lat = jadd (jadd (jadd lat0 latMin) latSec) (jdiv (Fin 0.5) (Fin 24)),
                           lon = jadd (jadd (jadd lon0 lonMin) lonSec) (jdiv (Fin 1) (Fin 24)) \<rparr>
               else Some \<lparr> lat = finalLat, lon = finalLon \<rparr>)"

text \<open>
  \<open>gridToLatLon\<close> of \<open>src/plugins/layers/useWSPR.js\<close>: the same arithmetic, but the
  parameter itself is overwritten by its upper-cased copy, so the sub-square test reads the
  length of the upper-cased string.
\<close>

definition gridToLatLon_wspr :: "string option \<Rightarrow> latlon option" where
  "gridToLatLon_wspr grid0 =
     (case grid0 of
        None \<Rightarrow> None
      | Some s \<Rightarrow>
          if s = [] \<or> length s < 4 then None
          else
            let grid = toUpperCase s;
                lon0 = jsub (jmul (jsub (charCodeAt grid 0) (Fin 65)) (Fin 20)) (Fin 180);
                lat0 = jsub (jmul (jsub (charCodeAt grid 1) (Fin 65)) (Fin 10)) (Fin 90);
                lon2 = jmul (parseInt_at grid 2) (Fin 2);
                lat2 = parseInt_at grid 3;
                longitude = jadd (jadd lon0 lon2) (Fin 1);
                latitude = jadd (jadd lat0 lat2) (Fin 0.5)
            in if length grid \<ge> 6 then
                 let lon3 = jmul (jsub (charCodeAt grid 4) (Fin 65)) (jdiv (Fin 2) (Fin 24));
                     lat3 = jmul (jsub (charCodeAt grid 5) (Fin 65)) (jdiv (Fin 1) (Fin 24))
                 in Some \<lparr> lat = jadd (jadd (jadd lat0 lat2) lat3) (jdiv (Fin 0.5) (Fin 24)),
                           lon = jadd (jadd (jadd lon0 lon2) lon3) (jdiv (Fin 1) (Fin 24)) \<rparr>
               else Some \<lparr> lat = latitude, lon = longitude \<rparr>)"


section \<open>Signal classifiers\<close>

text \<open>
  \<open>getSNRColor\<close> and \<open>getLineWeight\<close> of \<open>src/plugins/layers/useWSPR.js\<close>;
  \<open>None\<close> is \<open>null\<close> or \<open>undefined\<close>.
\<close>

definition getSNRColor :: "jsnum option \<Rightarrow> string" where
  "getSNRColor snr =
     (case snr of
        None \<Rightarrow> ''#888888''
      | Some v \<Rightarrow>
          if jlt v (Fin (- 20)) then ''#ff0000''
          else if jlt v (Fin (- 10)) then ''#ff6600''
          else if jlt v (Fin 0) then ''#ffaa00''
          else if jlt v (Fin 5) then ''#ffff00''
          else ''#00ff00'')"

definition getLineWeight :: "jsnum option \<Rightarrow> real" where
  "getLineWeight snr =
     (case snr of
        None \<Rightarrow> 1
      | Some v \<Rightarrow>
          if jlt v (Fin (- 20)) then 1
          else if jlt v (Fin (- 10)) then 1.5
          else if jlt v (Fin 0) then 2
          else if jlt v (Fin 5) then 2.5
          else 3)"

text \<open>\<open>getSnrColor\<close> of \<open>src/components/PSKReporterPanel.jsx\<close>.\<close>

definition getSnrColor :: "jsnum option \<Rightarrow> string" where
  "getSnrColor snr =
     (case snr of
        None \<Rightarrow> ''var(--text-muted)''
      | Some v \<Rightarrow>
          if jge v (Fin 0) then ''#4ade80''
          else if jge v (Fin (- 10)) then ''#fbbf24''
          else if jge v (Fin (- 15)) then ''#f97316''
          else ''#ef4444'')"

text \<open>
  The five bands of the specification, numbered from the weakest (\<open>0\<close>) to the strongest
  (\<open>4\<close>): \<open>< -20\<close>, \<open>[-20, -10)\<close>, \<open>[-10, 0)\<close>, \<open>[0, 5)\<close>, \<open>\<ge> 5\<close>.
\<close>

definition spec_band :: "real \<Rightarrow> nat" where
  "spec_band snr =
     (if snr < - 20 then 0 else if snr < - 10 then 1 else if snr < 0 then 2
      else if snr < 5 then 3 else 4)"

text \<open>The four bands \<open>getSnrColor\<close> draws: \<open>< -15\<close>, \<open>[-15, -10)\<close>, \<open>[-10, 0)\<close>, \<open>\<ge> 0\<close>.\<close>

definition panel_band :: "real \<Rightarrow> nat" where
  "panel_band snr =
     (if snr < - 15 then 0 else if snr < - 10 then 1 else if snr < 0 then 2 else 3)"

section \<open>Great-circle interpolation: \<open>getGreatCirclePath\<close>\<close>

text \<open>
  The \<open>Math\<close> functions on numbers. On finite arguments they are the real functions; the
  non-finite cases are those of the language definition.
\<close>

fun jsin :: "jsnum \<Rightarrow> jsnum" where
  "jsin (Fin a) = Fin (sin a)"
| "jsin _ = NaN"

fun jcos :: "jsnum \<Rightarrow> jsnum" where
  "jcos (Fin a) = Fin (cos a)"
| "jcos _ = NaN"

fun jacos :: "jsnum \<Rightarrow> jsnum" where
  "jacos (Fin a) = (if - 1 \<le> a \<and> a \<le> 1 then Fin (arccos a) else NaN)"
| "jacos _ = NaN"

fun jsqrt :: "jsnum \<Rightarrow> jsnum" where
  "jsqrt (Fin a) = (if a < 0 then NaN else Fin (sqrt a))"
| "jsqrt PInf = PInf"
| "jsqrt _ = NaN"

definition atan2_real :: "real \<Rightarrow> real \<Rightarrow> real" where
  "atan2_real y x =
     (if 0 < x then arctan (y / x)
      else if x < 0 then (if 0 \<le> y then arctan (y / x) + pi else arctan (y / x) - pi)
      else if 0 < y then pi / 2
      else if y < 0 then - (pi / 2)
      else 0)"

fun jatan2 :: "jsnum \<Rightarrow> jsnum \<Rightarrow> jsnum" where
  "jatan2 NaN _ = NaN"
| "jatan2 _ NaN = NaN"
| "jatan2 (Fin y) (Fin x) = Fin (atan2_real y x)"
| "jatan2 (Fin y) PInf = Fin 0"
| "jatan2 (Fin y) NInf = Fin (if y < 0 then - pi else pi)"
| "jatan2 PInf (Fin x) = Fin (pi / 2)"
| "jatan2 NInf (Fin x) = Fin (- (pi / 2))"
| "jatan2 PInf PInf = Fin (pi / 4)"
| "jatan2 PInf NInf = Fin (3 * pi / 4)"
| "jatan2 NInf PInf = Fin (- (pi / 4))"
| "jatan2 NInf NInf = Fin (- (3 * pi / 4))"

definition toRad :: "jsnum \<Rightarrow> jsnum" where
  "toRad deg = jdiv (jmul deg (Fin pi)) (Fin 180)"

definition toDeg :: "jsnum \<Rightarrow> jsnum" where
  "toDeg rad = jdiv (jmul rad (Fin 180)) (Fin pi)"

text \<open>The body of the loop for the counter \<open>i\<close>: the pair \<open>[lat, lon]\<close> pushed on the path.\<close>

definition gc_point ::
  "jsnum \<Rightarrow> jsnum \<Rightarrow> jsnum \<Rightarrow> jsnum \<Rightarrow> jsnum \<Rightarrow> nat \<Rightarrow> nat \<Rightarrow> jsnum \<times> jsnum" where
  "gc_point lat1Rad lon1Rad lat2Rad lon2Rad d numPoints i =
     (let f = jdiv (Fin (real i)) (Fin (real numPoints));
          A = jdiv (jsin (jmul (jsub (Fin 1) f) d)) (jsin d);
          B = jdiv (jsin (jmul f d)) (jsin d);
          x = jadd (jmul (jmul A (jcos lat1Rad)) (jcos lon1Rad))
                   (jmul (jmul B (jcos lat2Rad)) (jcos lon2Rad));
          y = jadd (jmul (jmul A (jcos lat1Rad)) (jsin lon1Rad))
                   (jmul (jmul B (jcos lat2Rad)) (jsin lon2Rad));
          z = jadd (jmul A (jsin lat1Rad)) (jmul B (jsin lat2Rad));
          lat = toDeg (jatan2 z (jsqrt (jadd (jmul x x) (jmul y y))));
          lon = toDeg (jatan2 y x)
      in (lat, lon))"

text \<open>
  The loop runs the counter from \<open>0\<close> to \<open>numPoints\<close> inclusive and pushes one pair for
  each value.
\<close>

definition getGreatCirclePath ::
  "jsnum \<Rightarrow> jsnum \<Rightarrow> jsnum \<Rightarrow> jsnum \<Rightarrow> nat \<Rightarrow> (jsnum \<times> jsnum) list" where
  "getGreatCirclePath lat1 lon1 lat2 lon2 numPoints =
     (let lat1Rad = toRad lat1;
          lon1Rad = toRad lon1;
          lat2Rad = toRad lat2;
          lon2Rad = toRad lon2;
          d = jacos (jadd (jmul (jsin lat1Rad) (jsin lat2Rad))
                          (jmul (jmul (jcos lat1Rad) (jcos lat2Rad))
                                (jcos (jsub lon2Rad lon1Rad))))
      in map (gc_point lat1Rad lon1Rad lat2Rad lon2Rad d numPoints) [0..<Suc numPoints])"


section \<open>The DX cluster aggregator: \<open>useDXClusterData\<close>\<close>

text \<open>
  A field that may be missing is an option, \<open>None\<close> for \<open>undefined\<close>. A string is truthy
  when it is present and not empty, a number when it is present and not \<open>0\<close>.
\<close>

definition truthy_str :: "string option \<Rightarrow> bool" where
  "truthy_str s = (case s of None \<Rightarrow> False | Some v \<Rightarrow> v \<noteq> [])"


definition truthy_opt :: "jsnum option \<Rightarrow> bool" where
  "truthy_opt n = (case n of None \<Rightarrow> False | Some v \<Rightarrow> truthy_num v)"

text \<open>
  A spot as the endpoint \<open>/api/dxcluster/paths\<close> delivers it. \<open>freq\<close> holds the text the
  template literal prints for the frequency field; \<open>timestamp\<close> is in milliseconds. Other
  fields of the object live in the extension of the record.
\<close>

record spot =
  dxCall :: "string option"
  call :: "string option"
  freq :: "string option"
  spotter :: "string option"
  comment :: "string option"
  timestamp :: "int option"

text \<open>What a template literal prints for a field: a missing field prints as \<open>undefined\<close>.\<close>

definition tmpl :: "string option \<Rightarrow> string" where
  "tmpl s = (case s of None \<Rightarrow> ''undefined'' | Some v \<Rightarrow> v)"

text \<open>The key \<open>`${item.dxCall}-${item.freq}-${item.spotter}`\<close>.\<close>

definition key_of :: "'a spot_scheme \<Rightarrow> string" where
  "key_of item = tmpl (dxCall item) @ ''-'' @ tmpl (freq item) @ ''-'' @ tmpl (spotter item)"

text \<open>\<open>t || d\<close> on a timestamp.\<close>

definition ts_or :: "int option \<Rightarrow> int \<Rightarrow> int" where
  "ts_or t d = (case t of None \<Rightarrow> d | Some v \<Rightarrow> if v = 0 then d else v)"

text \<open>\<open>{ ...item, timestamp: item.timestamp || now }\<close>\<close>

definition stamp :: "int \<Rightarrow> 'a spot_scheme \<Rightarrow> 'a spot_scheme" where
  "stamp now item = item\<lparr>timestamp := Some (ts_or (timestamp item) now)\<rparr>"

text \<open>
  A \<open>Map\<close> is the list of its entries in insertion order; \<open>set\<close> replaces the value of a
  key in place and appends a new key at the end, which is \<open>AList.update\<close>.
  \<open>existingMap\<close> is built from the previous items, then every new item is stored under its
  key.
\<close>

definition existingMap :: "'a spot_scheme list \<Rightarrow> (string \<times> 'a spot_scheme) list" where
  "existingMap prev = foldl (\<lambda>m item. AList.update (key_of item) item m) [] prev"

definition mergeBatch ::
  "int \<Rightarrow> (string \<times> 'a spot_scheme) list \<Rightarrow> 'a spot_scheme list \<Rightarrow> (string \<times> 'a spot_scheme) list" where
  "mergeBatch now m newData =
     foldl (\<lambda>m item. AList.update (key_of item) (stamp now item) m) m newData"

text \<open>The retention test \<open>(now - (item.timestamp || now)) < spotRetentionMs\<close>.\<close>

definition fresh :: "int \<Rightarrow> int \<Rightarrow> 'a spot_scheme \<Rightarrow> bool" where
  "fresh now spotRetentionMs item = (now - ts_or (timestamp item) now < spotRetentionMs)"

definition validItems ::
  "int \<Rightarrow> int \<Rightarrow> 'a spot_scheme list \<Rightarrow> 'a spot_scheme list \<Rightarrow> 'a spot_scheme list" where
  "validItems now spotRetentionMs prev newData =
     filter (fresh now spotRetentionMs) (map snd (mergeBatch now (existingMap prev) newData))"

text \<open>
  The update of \<open>allData\<close> by one fetch. The sort is stable and its comparator
  \<open>(b.timestamp || 0) - (a.timestamp || 0)\<close> puts the larger timestamp first, so it is
  the stable sort on the negated timestamp; \<open>slice(0, 200)\<close> keeps the first 200.
\<close>

definition ingest ::
  "int \<Rightarrow> int \<Rightarrow> 'a spot_scheme list \<Rightarrow> 'a spot_scheme list \<Rightarrow> 'a spot_scheme list" where
  "ingest now spotRetentionMs prev newData =
     take 200 (sort_key (\<lambda>item. - ts_or (timestamp item) 0)
                 (validItems now spotRetentionMs prev newData))"

text \<open>The effect that runs when \<open>spotRetentionMs\<close> changes.\<close>

definition retentionChange :: "int \<Rightarrow> int \<Rightarrow> 'a spot_scheme list \<Rightarrow> 'a spot_scheme list" where
  "retentionChange now spotRetentionMs prev = filter (fresh now spotRetentionMs) prev"

text \<open>A run of fetches from a given state: each call carries its clock and its batch.\<close>

fun ingests ::
  "int \<Rightarrow> 'a spot_scheme list \<Rightarrow> (int \<times> 'a spot_scheme list) list \<Rightarrow> 'a spot_scheme list" where
  "ingests spotRetentionMs s [] = s"
| "ingests spotRetentionMs s ((now, newData) # calls) =
     ingests spotRetentionMs (ingest now spotRetentionMs s newData) calls"

subsection \<open>The filter \<open>applyFilters\<close>\<close>

record filters =
  watchlistOnly :: "bool option"
  watchlist :: "string list option"
  excludeList :: "string list option"
  cqZones :: "nat list option"
  ituZones :: "nat list option"
  continents :: "string list option"
  bands :: "string list option"
  modes :: "string list option"
  callsign :: "string option"
  spotRetentionMinutes :: "int option"

text \<open>\<open>(filters?.spotRetentionMinutes || 30) * 60 * 1000\<close>\<close>

definition spotRetentionMs :: "filters option \<Rightarrow> int" where
  "spotRetentionMs fl =
     ts_or (case fl of None \<Rightarrow> None | Some f \<Rightarrow> spotRetentionMinutes f) 30 * 60 * 1000"


text \<open>\<open>xs?.length > 0\<close> and the elements of a list that may be missing.\<close>

definition arr :: "'a list option \<Rightarrow> 'a list" where
  "arr xs = (case xs of None \<Rightarrow> [] | Some v \<Rightarrow> v)"












section \<open>Reception reports: \<open>usePSKReporter\<close>\<close>

text \<open>
  A report of the endpoint \<open>/api/pskreporter\<close>. Its coordinates are \<open>r_lat\<close> and
  \<open>r_lon\<close> (\<open>lat\<close> and \<open>lon\<close> in the source), its age and timestamp \<open>r_age\<close> and
  \<open>r_timestamp\<close>.
\<close>

record report =
  r_lat :: "jsnum option"
  r_lon :: "jsnum option"
  receiverGrid :: "string option"
  senderGrid :: "string option"
  r_age :: "jsnum option"
  r_timestamp :: "jsnum option"

text \<open>\<open>a || b\<close> on numbers that may be missing.\<close>

definition or_num :: "jsnum option \<Rightarrow> jsnum option \<Rightarrow> jsnum option" where
  "or_num a b = (if truthy_opt a then a else b)"

text \<open>\<open>grid ? gridToLatLon(grid)?.lat : null\<close>, and the same for \<open>lon\<close>.\<close>

definition grid_coord :: "(latlon \<Rightarrow> jsnum) \<Rightarrow> string option \<Rightarrow> jsnum option" where
  "grid_coord sel grid = (if truthy_str grid then map_option sel (gridToLatLon grid) else None)"

fun jfloor :: "jsnum \<Rightarrow> jsnum" where
  "jfloor (Fin a) = Fin (of_int \<lfloor>a\<rfloor>)"
| "jfloor a = a"

text \<open>A missing operand of an arithmetic operator is \<open>NaN\<close>.\<close>

definition num_of :: "jsnum option \<Rightarrow> jsnum" where
  "num_of a = (case a of None \<Rightarrow> NaN | Some v \<Rightarrow> v)"

text \<open>
  The callback of \<open>map\<close>, for the grid field \<open>grid\<close> of the view (\<open>receiverGrid\<close> for
  the transmitted reports, \<open>senderGrid\<close> for the received ones) at the clock \<open>now\<close>.
\<close>

definition locate :: "int \<Rightarrow> ('a report_scheme \<Rightarrow> string option) \<Rightarrow> 'a report_scheme \<Rightarrow> 'a report_scheme" where
  "locate now grid r =
     r\<lparr> r_lat := or_num (r_lat r) (grid_coord lat (grid r)),
        r_lon := or_num (r_lon r) (grid_coord lon (grid r)),
        r_age := or_num (r_age r)
                   (Some (jfloor (jdiv (jsub (Fin (real_of_int now)) (num_of (r_timestamp r)))
                                       (Fin 60000)))) \<rparr>"

text \<open>\<open>.map(...).filter(r => r.lat && r.lon).slice(0, maxSpots)\<close>\<close>

definition located :: "'a report_scheme \<Rightarrow> bool" where
  "located r = (truthy_opt (r_lat r) \<and> truthy_opt (r_lon r))"

definition processReports ::
  "int \<Rightarrow> ('a report_scheme \<Rightarrow> string option) \<Rightarrow> nat \<Rightarrow> 'a report_scheme list option \<Rightarrow>
   'a report_scheme list" where
  "processReports now grid maxSpots reports =
     take maxSpots (filter located (map (locate now grid) (arr reports)))"

definition processedTx :: "int \<Rightarrow> nat \<Rightarrow> 'a report_scheme list option \<Rightarrow> 'a report_scheme list" where
  "processedTx now maxSpots txData = processReports now receiverGrid maxSpots txData"

definition processedRx :: "int \<Rightarrow> nat \<Rightarrow> 'a report_scheme list option \<Rightarrow> 'a report_scheme list" where
  "processedRx now maxSpots rxData = processReports now senderGrid maxSpots rxData"


section \<open>Terms of the specification\<close>

subsection \<open>Well-formed locators\<close>

text \<open>
  A locator is well formed when it starts with two letters and two digits; its sub-square
  is given when two more letters follow. A letter counts from \<open>A = 0\<close>, in either case.
\<close>

definition is_letter :: "char \<Rightarrow> bool" where
  "is_letter c = (65 \<le> (of_char (upper_char c) :: nat) \<and> (of_char (upper_char c) :: nat) \<le> 90)"

definition letter_val :: "char \<Rightarrow> real" where
  "letter_val c = real ((of_char (upper_char c) :: nat) - 65)"

definition digit_val :: "char \<Rightarrow> real" where
  "digit_val c = real ((of_char c :: nat) - 48)"

definition field_square :: "string \<Rightarrow> bool" where
  "field_square s =
     (4 \<le> length s \<and> is_letter (s ! 0) \<and> is_letter (s ! 1) \<and> is_digit (s ! 2) \<and> is_digit (s ! 3))"

definition sub_square :: "string \<Rightarrow> bool" where
  "sub_square s = (6 \<le> length s \<and> is_letter (s ! 4) \<and> is_letter (s ! 5))"

subsection \<open>Entries dropped by the capacity bound\<close>

text \<open>The entries that \<open>slice(0, 200)\<close> leaves out: the rest of the sorted list.\<close>

definition evicted ::
  "int \<Rightarrow> int \<Rightarrow> 'a spot_scheme list \<Rightarrow> 'a spot_scheme list \<Rightarrow> 'a spot_scheme list" where
  "evicted now ret prev newData =
     drop 200 (sort_key (\<lambda>item. - ts_or (timestamp item) 0) (validItems now ret prev newData))"

subsection \<open>Maps keyed by their values\<close>

text \<open>Every entry of the map is stored under the key of its value.\<close>

definition keyed :: "(string \<times> 'a spot_scheme) list \<Rightarrow> bool" where
  "keyed m = (\<forall>p\<in>set m. key_of (snd p) = fst p)"

subsection \<open>Sample data\<close>

text \<open>One spot, and a batch of 201 spots with 201 keys and the timestamps 1 to 201.\<close>

definition k1abc :: spot where
  "k1abc = \<lparr>dxCall = Some ''K1ABC'', call = None, freq = Some ''14074'', spotter = Some ''W1AW'',
            comment = None, timestamp = Some 1000\<rparr>"

definition batch201 :: "spot list" where
  "batch201 =
     map (\<lambda>n. \<lparr>dxCall = Some (replicate n (CHR ''A'')), call = None, freq = None,
               spotter = None, comment = None, timestamp = Some (int n + 1)\<rparr>) [0..<201]"

text \<open>
  A report without any identity field, and two reports with different identity fields whose
  keys are the same text.
\<close>

definition unidentified :: spot where
  "unidentified = \<lparr>dxCall = None, call = None, freq = None, spotter = None,
                   comment = Some ''CQ'', timestamp = None\<rparr>"

definition collide1 :: spot where
  "collide1 = \<lparr>dxCall = Some ''W1AW-2'', call = None, freq = Some ''14074'',
               spotter = Some ''K1ABC'', comment = None, timestamp = None\<rparr>"

definition collide2 :: spot where
  "collide2 = \<lparr>dxCall = Some ''W1AW'', call = None, freq = Some ''2'',
               spotter = Some ''14074-K1ABC'', comment = None, timestamp = None\<rparr>"







text \<open>
  A report of a receiver on the equator, at latitude 0 and longitude 10, with its locator,
  and a report with both coordinates not zero.
\<close>

definition equator :: report where
  "equator = \<lparr>r_lat = Some (Fin 0), r_lon = Some (Fin 10), receiverGrid = Some ''JJ50'',
              senderGrid = None, r_age = Some (Fin 3), r_timestamp = None\<rparr>"

definition boulder :: report where
  "boulder = \<lparr>r_lat = Some (Fin 40.5), r_lon = Some (Fin (- 105)), receiverGrid = None,
              senderGrid = None, r_age = Some (Fin 3), r_timestamp = None\<rparr>"

section \<open>Properties of the locator decoding\<close>

lemma jmul_one: "jmul x (Fin 1) = x"
  by (cases x) (auto simp: inf_of_sign_def)

lemma upper_char_idem: "upper_char (upper_char c) = upper_char c"
  by (auto simp: upper_char_def)

lemma upper_digit: "is_digit c \<Longrightarrow> upper_char c = c"
  by (auto simp: upper_char_def is_digit_def)

lemma length_toUpperCase: "length (toUpperCase s) = length s"
  by (simp add: toUpperCase_def)

lemma toUpperCase_Nil: "toUpperCase s = [] \<longleftrightarrow> s = []"
  by (simp add: toUpperCase_def)

lemma toUpperCase_idem: "toUpperCase (toUpperCase s) = toUpperCase s"
  by (simp add: toUpperCase_def upper_char_idem)

lemma gridToLatLon_wspr_eq: "gridToLatLon_wspr g = gridToLatLon g"
  by (simp add: gridToLatLon_wspr_def gridToLatLon_def length_toUpperCase Let_def jmul_one
      split: option.splits)

lemma gridToLatLon_upper: "gridToLatLon (Some (toUpperCase s)) = gridToLatLon (Some s)"
  by (simp add: gridToLatLon_def length_toUpperCase toUpperCase_idem toUpperCase_Nil Let_def)

lemma gridToLatLon_None:
  "gridToLatLon g = None \<longleftrightarrow> (g = None \<or> (\<exists>s. g = Some s \<and> length s < 4))"
  by (auto simp: gridToLatLon_def Let_def split: option.splits)

lemma gridToLatLon_square:
  assumes "field_square s" "length s < 6"
  shows "gridToLatLon (Some s) =
    Some \<lparr> lat = Fin (- 90 + 10 * letter_val (s ! 1) + 1 * digit_val (s ! 3) + 0.5),
           lon = Fin (- 180 + 20 * letter_val (s ! 0) + 2 * digit_val (s ! 2) + 1) \<rparr>"
  using assms
  by (auto simp: gridToLatLon_def Let_def charCodeAt_def parseInt_at_def toUpperCase_def jsub_def
      upper_digit field_square_def is_letter_def letter_val_def digit_val_def is_digit_def
      of_nat_diff algebra_simps)

lemma gridToLatLon_sub_square:
  assumes "field_square s" "sub_square s"
  shows "gridToLatLon (Some s) =
    Some \<lparr> lat = Fin (- 90 + 10 * letter_val (s ! 1) + 1 * digit_val (s ! 3)
                      + (1 / 24) * letter_val (s ! 5) + 0.5 / 24),
           lon = Fin (- 180 + 20 * letter_val (s ! 0) + 2 * digit_val (s ! 2)
                      + (2 / 24) * letter_val (s ! 4) + 1 / 24) \<rparr>"
  using assms
  by (auto simp: gridToLatLon_def Let_def charCodeAt_def parseInt_at_def toUpperCase_def jsub_def
      upper_digit field_square_def sub_square_def is_letter_def letter_val_def digit_val_def
      is_digit_def of_nat_diff algebra_simps)

text \<open>
  C3. \<open>gridToLatLon\<close> returns \<open>null\<close> exactly when the locator is absent or shorter than
  four characters, and both copies of the function agree. Otherwise the result does not
  depend on the case of the letters, and for a well-formed locator it is the centre of the
  cell: from the base \<open>(-180, -90)\<close>, 20 degrees of longitude and 10 of latitude for each
  field letter, 2 and 1 for each square digit, and the offsets \<open>+1\<close> and \<open>+0.5\<close> when
  fewer than six characters are given; with six or more, \<open>2/24\<close> and \<open>1/24\<close> for each
  sub-square letter and the offsets \<open>1/24\<close> and \<open>0.5/24\<close>. Numbers are exact reals here.
\<close>

theorem gridToLatLon_center:
  "(gridToLatLon g = None \<longleftrightarrow> (g = None \<or> (\<exists>s. g = Some s \<and> length s < 4))) \<and>
   gridToLatLon_wspr g = gridToLatLon g \<and>
   (toUpperCase s = toUpperCase t \<longrightarrow> gridToLatLon (Some s) = gridToLatLon (Some t)) \<and>
   (field_square s \<and> length s < 6 \<longrightarrow>
      gridToLatLon (Some s) =
        Some \<lparr> lat = Fin (- 90 + 10 * letter_val (s ! 1) + 1 * digit_val (s ! 3) + 0.5),
               lon = Fin (- 180 + 20 * letter_val (s ! 0) + 2 * digit_val (s ! 2) + 1) \<rparr>) \<and>
   (field_square s \<and> sub_square s \<longrightarrow>
      gridToLatLon (Some s) =
        Some \<lparr> lat = Fin (- 90 + 10 * letter_val (s ! 1) + 1 * digit_val (s ! 3)
                          + (1 / 24) * letter_val (s ! 5) + 0.5 / 24),
               lon = Fin (- 180 + 20 * letter_val (s ! 0) + 2 * digit_val (s ! 2)
                          + (2 / 24) * letter_val (s ! 4) + 1 / 24) \<rparr>)"
proof -
  have "gridToLatLon (Some s) = gridToLatLon (Some t)" if "toUpperCase s = toUpperCase t"
    using that gridToLatLon_upper [of s] gridToLatLon_upper [of t] by simp
  then show ?thesis
    using gridToLatLon_None [of g] gridToLatLon_wspr_eq [of g]
      gridToLatLon_square [of s] gridToLatLon_sub_square [of s]
    by blast
qed

theorem gridToLatLon_center_witness:
  "gridToLatLon (Some ''dn7'') = None \<and>
   toUpperCase ''dn70'' = toUpperCase ''DN70'' \<and>
   field_square ''dn70'' \<and> length ''dn70'' < 6 \<and>
   gridToLatLon (Some ''dn70'') = Some \<lparr> lat = Fin 40.5, lon = Fin (- 105) \<rparr> \<and>
   gridToLatLon (Some ''DN70'') = Some \<lparr> lat = Fin 40.5, lon = Fin (- 105) \<rparr> \<and>
   field_square ''JO65ha'' \<and> sub_square ''JO65ha'' \<and>
   gridToLatLon (Some ''JO65ha'') = Some \<lparr> lat = Fin (55 + 1 / 48), lon = Fin (12 + 15 / 24) \<rparr>"
proof -
  have up: "toUpperCase ''dn70'' = toUpperCase ''DN70''"
    by code_simp
  have fs: "field_square ''dn70''" "field_square ''JO65ha''" "sub_square ''JO65ha''"
    by code_simp+
  have vals: "letter_val (CHR ''d'') = 3" "letter_val (CHR ''n'') = 13"
    "digit_val (CHR ''7'') = 7" "digit_val (CHR ''0'') = 0"
    "letter_val (CHR ''J'') = 9" "letter_val (CHR ''O'') = 14"
    "digit_val (CHR ''6'') = 6" "digit_val (CHR ''5'') = 5"
    "letter_val (CHR ''h'') = 7" "letter_val (CHR ''a'') = 0"
    by code_simp+
  show ?thesis
    using gridToLatLon_center [of "Some ''dn7''" "''dn70''" "''DN70''"]
      gridToLatLon_center [of "Some ''dn7''" "''JO65ha''" "''JO65ha''"] up fs
    by (auto simp: vals)
qed

section \<open>Properties of the signal classifiers\<close>

lemma getSNRColor_band:
  "getSNRColor (Some (Fin r)) =
     [''#ff0000'', ''#ff6600'', ''#ffaa00'', ''#ffff00'', ''#00ff00''] ! spec_band r"
  by (simp add: getSNRColor_def spec_band_def)

lemma getLineWeight_band: "getLineWeight (Some (Fin r)) = [1, 1.5, 2, 2.5, 3] ! spec_band r"
  by (simp add: getLineWeight_def spec_band_def)

lemma getSnrColor_band:
  "getSnrColor (Some (Fin r)) = [''#ef4444'', ''#f97316'', ''#fbbf24'', ''#4ade80''] ! panel_band r"
  by (simp add: getSnrColor_def panel_band_def jge_def)

lemma spec_band_mono: "r \<le> r' \<Longrightarrow> spec_band r \<le> spec_band r'"
  by (simp add: spec_band_def)

lemma getLineWeight_ge_1: "1 \<le> getLineWeight snr"
  by (simp add: getLineWeight_def split: option.splits)

lemma getSNRColor_same_band:
  "getSNRColor (Some (Fin r)) = getSNRColor (Some (Fin r')) \<longleftrightarrow> spec_band r = spec_band r'"
  by (simp add: getSNRColor_def spec_band_def)

lemma getSnrColor_same_band:
  "getSnrColor (Some (Fin r)) = getSnrColor (Some (Fin r')) \<longleftrightarrow> panel_band r = panel_band r'"
  by (simp add: getSnrColor_def panel_band_def jge_def)

lemma getLineWeight_strict:
  "getLineWeight (Some (Fin r)) < getLineWeight (Some (Fin r')) \<longleftrightarrow> spec_band r < spec_band r'"
  by (simp add: getLineWeight_def spec_band_def)

lemma getSNRColor_absent: "getSNRColor None \<noteq> getSNRColor (Some v)"
  by (simp add: getSNRColor_def)

lemma getSnrColor_absent: "getSnrColor None \<noteq> getSnrColor (Some v)"
  by (simp add: getSnrColor_def)

text \<open>
  C8, as stated, fails: the two classifiers do not draw the same bands. \<open>getSnrColor\<close> gives
  \<open>0\<close> and \<open>5\<close> dB one colour where \<open>getSNRColor\<close> separates them at the boundary
  \<open>5\<close>, and it separates \<open>-18\<close> and \<open>-12\<close> dB, at its own boundary \<open>-15\<close>, where
  \<open>getSNRColor\<close> has both in \<open>[-20, -10)\<close>.
\<close>

theorem snr_bands_differ:
  "getSNRColor (Some (Fin 0)) \<noteq> getSNRColor (Some (Fin 5)) \<and>
   getSnrColor (Some (Fin 0)) = getSnrColor (Some (Fin 5)) \<and>
   getSNRColor (Some (Fin (- 18))) = getSNRColor (Some (Fin (- 12))) \<and>
   getSnrColor (Some (Fin (- 18))) \<noteq> getSnrColor (Some (Fin (- 12)))"
  by (simp add: getSNRColor_def getSnrColor_def jge_def)


text \<open>
  C8, amended. \<open>getSNRColor\<close> and \<open>getLineWeight\<close> of the WSPR layer use the five
  half-open bands with the boundaries \<open>-20\<close>, \<open>-10\<close>, \<open>0\<close> and \<open>5\<close>: two finite
  ratios get the same colour exactly when they lie in the same band, the weight is fixed by
  the band and grows strictly with it, so it never decreases when the ratio grows; an absent
  ratio has a colour of its own and the weight \<open>1\<close>, which is the least weight.
  \<open>getSnrColor\<close> of the panel uses four bands with the boundaries \<open>-15\<close>, \<open>-10\<close> and
  \<open>0\<close>, and a colour of its own for an absent ratio.
\<close>

theorem snr_classifiers:
  "(getSNRColor (Some (Fin r)) = getSNRColor (Some (Fin r')) \<longleftrightarrow> spec_band r = spec_band r') \<and>
   getSNRColor None \<noteq> getSNRColor (Some v) \<and>
   getLineWeight (Some (Fin r)) = [1, 1.5, 2, 2.5, 3] ! spec_band r \<and>
   (getLineWeight (Some (Fin r)) < getLineWeight (Some (Fin r')) \<longleftrightarrow> spec_band r < spec_band r') \<and>
   (r \<le> r' \<longrightarrow> getLineWeight (Some (Fin r)) \<le> getLineWeight (Some (Fin r'))) \<and>
   getLineWeight None = 1 \<and> getLineWeight None \<le> getLineWeight snr \<and>
   (getSnrColor (Some (Fin r)) = getSnrColor (Some (Fin r')) \<longleftrightarrow> panel_band r = panel_band r') \<and>
   getSnrColor None \<noteq> getSnrColor (Some v)"
proof -
  have mono: "getLineWeight (Some (Fin r)) \<le> getLineWeight (Some (Fin r'))" if "r \<le> r'"
    using getLineWeight_strict [of r' r] spec_band_mono [OF that] by simp
  have least: "getLineWeight None = 1" "getLineWeight None \<le> getLineWeight snr"
    using getLineWeight_ge_1 [of snr] by (simp_all add: getLineWeight_def)
  show ?thesis
    using getSNRColor_same_band [of r r'] getSNRColor_absent [of v] getLineWeight_band [of r]
      getLineWeight_strict [of r r'] mono least getSnrColor_same_band [of r r']
      getSnrColor_absent [of v]
    by blast
qed

theorem snr_classifiers_witness:
  "(- 25 :: real) \<le> 7 \<and> spec_band (- 25) = 0 \<and> spec_band 7 = 4 \<and>
   getLineWeight (Some (Fin (- 25))) = 1 \<and>
   getLineWeight (Some (Fin (- 25))) \<le> getLineWeight (Some (Fin 7)) \<and>
   getLineWeight (Some (Fin (- 25))) < getLineWeight (Some (Fin 7)) \<and>
   getSNRColor (Some (Fin (- 25))) \<noteq> getSNRColor (Some (Fin 7)) \<and>
   panel_band (- 25) = 0 \<and> panel_band 7 = 3 \<and>
   getSnrColor (Some (Fin (- 25))) \<noteq> getSnrColor (Some (Fin 7))"
  using snr_classifiers [of "- 25" 7 NaN None]
  by (simp add: spec_band_def panel_band_def)

section \<open>Great-circle interpolation: coincident endpoints\<close>

lemma jmul_NaN: "jmul NaN x = NaN" "jmul x NaN = NaN"
  by (cases x; simp)+

lemma jadd_NaN: "jadd x NaN = NaN"
  by (cases x) simp_all

lemma toDeg_NaN: "toDeg NaN = NaN"
  by (simp add: toDeg_def jmul_NaN)

text \<open>With an angular separation of exactly zero both weights are \<open>0/0\<close>.\<close>

lemma zero_over_zero: "jdiv (jsin (jmul c (Fin 0))) (Fin 0) = NaN"
  by (cases c) (simp_all add: inf_of_sign_def)

lemma gc_point_zero: "gc_point a b a' b' (Fin 0) n = (\<lambda>i. (NaN, NaN))"
  by (rule ext)
    (simp only: gc_point_def Let_def jsin.simps sin_zero zero_over_zero jmul_NaN jadd.simps
      jatan2.simps toDeg_NaN)

lemma sin_cos_one: "sin x * sin x + cos x * cos x = (1::real)"
  using sin_cos_squared_add3 [of x] by (simp add: add.commute)

lemma coincident_separation:
  "jacos (jadd (jmul (jsin (toRad (Fin p))) (jsin (toRad (Fin p))))
     (jmul (jmul (jcos (toRad (Fin p))) (jcos (toRad (Fin p))))
        (jcos (jsub (toRad (Fin l)) (toRad (Fin l)))))) = Fin 0"
  by (simp add: toRad_def jsub_def sin_cos_one)

lemma coincident_path:
  "getGreatCirclePath (Fin p) (Fin l) (Fin p) (Fin l) n = replicate (Suc n) (NaN, NaN)"
  unfolding getGreatCirclePath_def Let_def coincident_separation gc_point_zero
  by (simp add: map_replicate_const del: upt_Suc replicate_Suc)

text \<open>
  C2 asks for a repeat of the first endpoint when the two endpoints coincide. The code has
  no such case: for both endpoints at latitude 0, longitude 0, the separation is
  \<open>acos(1) = 0\<close>, both weights are \<open>0/0\<close>, and every one of the 51 points of the path is
  \<open>[NaN, NaN]\<close>. No rounding takes part in this run: \<open>sin 0\<close>, \<open>cos 0\<close> and
  \<open>acos 1\<close> are exact.
\<close>

theorem coincident_path_NaN:
  "getGreatCirclePath (Fin 0) (Fin 0) (Fin 0) (Fin 0) 50 = replicate 51 (NaN, NaN)"
  using coincident_path [of 0 0 50] by simp

section \<open>The aggregator: retention and capacity\<close>

lemma update_values: "snd ` set (AList.update k v al) \<subseteq> insert v (snd ` set al)"
  by (induction al) auto

lemma existingMap_values_aux:
  "snd ` set (foldl (\<lambda>m item. AList.update (key_of item) item m) m prev) \<subseteq> snd ` set m \<union> set prev"
proof (induction prev arbitrary: m)
  case Nil
  then show ?case by simp
next
  case (Cons a prev)
  show ?case
    using Cons.IH [of "AList.update (key_of a) a m"] update_values [of "key_of a" a m]
    by auto
qed

lemma existingMap_values: "snd ` set (existingMap prev) \<subseteq> set prev"
  using existingMap_values_aux [of "[]" prev] by (simp add: existingMap_def)

lemma mergeBatch_Nil: "mergeBatch now m [] = m"
  by (simp add: mergeBatch_def)

lemma mergeBatch_Cons:
  "mergeBatch now m (item # items) =
     mergeBatch now (AList.update (key_of item) (stamp now item) m) items"
  by (simp add: mergeBatch_def)

lemma mergeBatch_append:
  "mergeBatch now m (xs @ ys) = mergeBatch now (mergeBatch now m xs) ys"
  by (simp add: mergeBatch_def)

lemma mergeBatch_values:
  "snd ` set (mergeBatch now m newData) \<subseteq> snd ` set m \<union> stamp now ` set newData"
proof (induction newData arbitrary: m)
  case Nil
  then show ?case by (simp add: mergeBatch_Nil)
next
  case (Cons a newData)
  show ?case
    using Cons.IH [of "AList.update (key_of a) (stamp now a) m"]
      update_values [of "key_of a" "stamp now a" m]
    by (auto simp: mergeBatch_Cons)
qed

lemma validItems_fresh: "item \<in> set (validItems now ret prev newData) \<Longrightarrow> fresh now ret item"
  by (simp add: validItems_def)

lemma validItems_source:
  "set (validItems now ret prev newData) \<subseteq> set prev \<union> stamp now ` set newData"
  using mergeBatch_values [of now "existingMap prev" newData] existingMap_values [of prev]
  by (auto simp: validItems_def)

lemma ingest_subset: "set (ingest now ret prev newData) \<subseteq> set (validItems now ret prev newData)"
  using set_take_subset [of 200 "sort_key (\<lambda>item. - ts_or (timestamp item) 0) (validItems now ret prev newData)"]
  by (simp add: ingest_def)

lemma ingest_fresh: "item \<in> set (ingest now ret prev newData) \<Longrightarrow> fresh now ret item"
  using ingest_subset validItems_fresh by blast

lemma ingest_length: "length (ingest now ret prev newData) \<le> 200"
  by (simp add: ingest_def)

lemma ingest_length_full:
  "200 \<le> length (validItems now ret prev newData) \<Longrightarrow> length (ingest now ret prev newData) = 200"
  by (simp add: ingest_def)

lemma ingest_all:
  "length (validItems now ret prev newData) \<le> 200 \<Longrightarrow>
   mset (ingest now ret prev newData) = mset (validItems now ret prev newData)"
  by (simp add: ingest_def)

text \<open>In a list sorted on a key, the first \<open>n\<close> elements have the least keys.\<close>

lemma sorted_take_drop:
  assumes "sorted (map f xs)" "x \<in> set (take n xs)" "y \<in> set (drop n xs)"
  shows "f x \<le> f y"
proof -
  have "sorted (map f (take n xs) @ map f (drop n xs))"
    using assms(1) by (simp flip: map_append)
  then show ?thesis
    using assms(2,3) by (auto simp: sorted_append)
qed

lemma ingest_evicted_mset:
  "mset (ingest now ret prev newData) + mset (evicted now ret prev newData) =
   mset (validItems now ret prev newData)"
proof -
  let ?s = "sort_key (\<lambda>item. - ts_or (timestamp item) 0) (validItems now ret prev newData)"
  have "mset (take 200 ?s) + mset (drop 200 ?s) = mset ?s"
    by (metis append_take_drop_id mset_append)
  then show ?thesis
    by (simp add: ingest_def evicted_def)
qed

lemma ingest_most_recent:
  assumes "x \<in> set (ingest now ret prev newData)" "y \<in> set (evicted now ret prev newData)"
  shows "ts_or (timestamp y) 0 \<le> ts_or (timestamp x) 0"
  using sorted_take_drop [of "\<lambda>item. - ts_or (timestamp item) 0"
      "sort_key (\<lambda>item. - ts_or (timestamp item) 0) (validItems now ret prev newData)" x 200 y] assms
  by (simp add: ingest_def evicted_def)

lemma retentionChange_set:
  "set (retentionChange now ret prev) = {item \<in> set prev. fresh now ret item}"
  by (auto simp: retentionChange_def)

lemma ingests_snoc:
  "ingests ret s (calls @ [(now, newData)]) = ingest now ret (ingests ret s calls) newData"
  by (induction calls arbitrary: s) auto



lemma stamp_timestamp: "timestamp (stamp now item) = Some (ts_or (timestamp item) now)"
  by (simp add: stamp_def)

lemma ts_or_nonzero: "d \<noteq> 0 \<Longrightarrow> ts_or t d \<noteq> 0"
  by (simp add: ts_or_def split: option.splits)

text \<open>Once the clock is not zero, every stored entry carries a timestamp that is not zero.\<close>

lemma ingest_stamped:
  assumes "\<forall>item\<in>set prev. \<exists>t. timestamp item = Some t \<and> t \<noteq> 0" "now \<noteq> 0"
    "item \<in> set (ingest now ret prev newData)"
  shows "\<exists>t. timestamp item = Some t \<and> t \<noteq> 0"
proof -
  have "item \<in> set prev \<union> stamp now ` set newData"
    using assms(3) ingest_subset validItems_source by blast
  then show ?thesis
    using assms(1,2) by (auto simp: stamp_timestamp ts_or_nonzero)
qed

lemma ingests_stamped:
  assumes "\<forall>c\<in>set calls. fst c \<noteq> 0" "item \<in> set (ingests ret [] calls)"
  shows "\<exists>t. timestamp item = Some t \<and> t \<noteq> 0"
  using assms
proof (induction calls arbitrary: item rule: rev_induct)
  case Nil
  then show ?case by simp
next
  case (snoc c calls)
  obtain now newData where c: "c = (now, newData)"
    by (cases c)
  have prev: "\<forall>i\<in>set (ingests ret [] calls). \<exists>t. timestamp i = Some t \<and> t \<noteq> 0"
    using snoc.IH snoc.prems(1) by simp
  have "now \<noteq> 0"
    using snoc.prems(1) c by simp
  then show ?case
    using ingest_stamped [OF prev, of now item ret newData] snoc.prems(2) c
    by (simp add: ingests_snoc)
qed

lemma fresh_stamped: "timestamp item = Some t \<Longrightarrow> t \<noteq> 0 \<Longrightarrow> fresh now ret item \<longleftrightarrow> now - t < ret"
  by (simp add: fresh_def ts_or_def)

text \<open>
  C1. Whatever the retained list was, after an ingest at the clock \<open>now\<close> every retained
  entry passes the retention test of the code (its age \<open>now - timestamp\<close> is below the
  retention window, an entry without a timestamp counting as new), there are at most 200
  entries, and when more than 200 survive the eviction by age exactly 200 are kept: the kept
  and the dropped entries together are the survivors, and no dropped entry has a larger
  timestamp than a kept one. The same holds after the last ingest of every run of ingests
  from the empty list, where, with clocks that are not zero, every entry carries a timestamp
  \<open>t\<close> with \<open>now - t\<close> below the window. A change of the retention window keeps
  exactly the entries of the list that pass the test for the new window.
\<close>

theorem ingest_retention_capacity:
  "(\<forall>item\<in>set (ingest now ret prev newData). now - ts_or (timestamp item) now < ret) \<and>
   length (ingest now ret prev newData) = min 200 (length (validItems now ret prev newData)) \<and>
   (200 < length (validItems now ret prev newData) \<longrightarrow>
      length (ingest now ret prev newData) = 200) \<and>
   mset (ingest now ret prev newData) + mset (evicted now ret prev newData) =
     mset (validItems now ret prev newData) \<and>
   (\<forall>x\<in>set (ingest now ret prev newData). \<forall>y\<in>set (evicted now ret prev newData).
      ts_or (timestamp y) 0 \<le> ts_or (timestamp x) 0) \<and>
   (\<forall>item\<in>set (ingests ret [] (calls @ [(now, newData)])).
      now - ts_or (timestamp item) now < ret) \<and>
   length (ingests ret [] (calls @ [(now, newData)])) \<le> 200 \<and>
   ((\<forall>c\<in>set calls. fst c \<noteq> 0) \<and> now \<noteq> 0 \<longrightarrow>
      (\<forall>item\<in>set (ingests ret [] (calls @ [(now, newData)])).
         \<exists>t. timestamp item = Some t \<and> now - t < ret)) \<and>
   set (retentionChange now' ret' prev) =
     {item \<in> set prev. now' - ts_or (timestamp item) now' < ret'}"
proof -
  have a: "\<forall>item\<in>set (ingest now ret s newData). now - ts_or (timestamp item) now < ret" for s
    using ingest_fresh [of _ now ret s newData] by (simp add: fresh_def)
  have b: "length (ingest now ret prev newData) = min 200 (length (validItems now ret prev newData))"
    by (simp add: ingest_def)
  have c: "\<forall>x\<in>set (ingest now ret prev newData). \<forall>y\<in>set (evicted now ret prev newData).
      ts_or (timestamp y) 0 \<le> ts_or (timestamp x) 0"
    using ingest_most_recent by blast
  have d: "\<forall>item\<in>set (ingests ret [] (calls @ [(now, newData)])).
      \<exists>t. timestamp item = Some t \<and> now - t < ret"
    if h: "(\<forall>c\<in>set calls. fst c \<noteq> 0) \<and> now \<noteq> 0"
  proof
    fix item
    assume i: "item \<in> set (ingests ret [] (calls @ [(now, newData)]))"
    have "\<forall>c\<in>set (calls @ [(now, newData)]). fst c \<noteq> 0"
      using h by simp
    then obtain t where t: "timestamp item = Some t" "t \<noteq> 0"
      using ingests_stamped [OF _ i] by blast
    have "fresh now ret item"
      using i ingest_fresh by (simp add: ingests_snoc)
    then show "\<exists>t. timestamp item = Some t \<and> now - t < ret"
      using t fresh_stamped by blast
  qed
  have e: "length (ingests ret [] (calls @ [(now, newData)])) \<le> 200"
    by (simp add: ingests_snoc ingest_length)
  have f: "set (retentionChange now' ret' prev) =
     {item \<in> set prev. now' - ts_or (timestamp item) now' < ret'}"
    by (simp add: retentionChange_set fresh_def)
  show ?thesis
    using a [of prev] a [of "ingests ret [] calls"] b c d e f ingest_evicted_mset [of now ret prev newData]
    by (simp add: ingests_snoc)
qed


lemma update_new_key: "k \<notin> fst ` set al \<Longrightarrow> AList.update k v al = al @ [(k, v)]"
  by (induction al) auto

lemma mergeBatch_distinct:
  "distinct (map key_of xs) \<Longrightarrow> key_of ` set xs \<inter> fst ` set m = {} \<Longrightarrow>
   mergeBatch now m xs = m @ map (\<lambda>i. (key_of i, stamp now i)) xs"
proof (induction xs arbitrary: m)
  case Nil
  then show ?case by (simp add: mergeBatch_Nil)
next
  case (Cons a xs)
  have new: "key_of a \<notin> fst ` set m"
    using Cons.prems(2) by auto
  have "key_of ` set xs \<inter> fst ` set (m @ [(key_of a, stamp now a)]) = {}"
    using Cons.prems by auto
  then show ?case
    using Cons.IH [of "m @ [(key_of a, stamp now a)]"] Cons.prems(1) new
    by (simp add: mergeBatch_Cons update_new_key)
qed

lemma validItems_distinct:
  "distinct (map key_of xs) \<Longrightarrow>
   validItems now ret [] xs = filter (fresh now ret) (map (stamp now) xs)"
  by (simp add: validItems_def existingMap_def mergeBatch_distinct comp_def)

lemma batch201_keys: "distinct (map key_of batch201)"
proof -
  have "inj_on (\<lambda>n. replicate n (CHR ''A'') @ ''-undefined-undefined'') {0..<201}"
    by (rule inj_onI) (metis append_same_eq length_replicate)
  then show ?thesis
    by (simp add: batch201_def comp_def key_of_def tmpl_def distinct_map del: upt_Suc)
qed

lemma batch201_valid: "length (validItems 1000 1800000 [] batch201) = 201"
proof -
  have "filter (fresh 1000 1800000) (map (stamp 1000) batch201) = map (stamp 1000) batch201"
    by (rule filter_True) (auto simp: batch201_def fresh_def stamp_def ts_or_def simp del: upt_Suc)
  then show ?thesis
    by (simp add: validItems_distinct batch201_keys) (simp add: batch201_def)
qed

theorem ingest_retention_capacity_witness:
  "200 < length (validItems 1000 1800000 [] batch201) \<and>
   length (ingest 1000 1800000 [] batch201) = 200 \<and>
   length (evicted 1000 1800000 [] batch201) = 1 \<and>
   list_all (\<lambda>x. list_all (\<lambda>y. ts_or (timestamp y) 0 \<le> ts_or (timestamp x) 0)
                 (evicted 1000 1800000 [] batch201))
     (ingest 1000 1800000 [] batch201) \<and>
   list_all (\<lambda>c. fst c \<noteq> 0) [(1000::int, [k1abc])] \<and> (2000::int) \<noteq> 0 \<and>
   ingests 1800000 [] ([(1000, [k1abc])] @ [(2000, [k1abc\<lparr>timestamp := None\<rparr>])]) =
     [k1abc\<lparr>timestamp := Some 2000\<rparr>] \<and>
   list_all (\<lambda>item. \<exists>t. timestamp item = Some t \<and> 2000 - t < 1800000)
     (ingests 1800000 [] ([(1000, [k1abc])] @ [(2000, [k1abc\<lparr>timestamp := None\<rparr>])])) \<and>
   set (retentionChange 2000 500 [k1abc]) = {}"
proof -
  note big = ingest_retention_capacity [of 1000 1800000 "[]" batch201 "[]" 2000 500]
  note run = ingest_retention_capacity [of 2000 1800000 "[k1abc]" "[k1abc\<lparr>timestamp := None\<rparr>]"
      "[(1000, [k1abc])]" 2000 500]
  have v: "200 < length (validItems 1000 1800000 [] batch201)"
    by (simp add: batch201_valid)
  have e: "length (evicted 1000 1800000 [] batch201) = 1"
    by (simp add: evicted_def batch201_valid)
  have c1: "length (ingest 1000 1800000 [] batch201) = 200"
    using big v by blast
  have c2: "\<forall>x\<in>set (ingest 1000 1800000 [] batch201). \<forall>y\<in>set (evicted 1000 1800000 [] batch201).
      ts_or (timestamp y) 0 \<le> ts_or (timestamp x) 0"
    using big by blast
  have s: "ingests 1800000 [] ([(1000, [k1abc])] @ [(2000, [k1abc\<lparr>timestamp := None\<rparr>])]) =
     [k1abc\<lparr>timestamp := Some 2000\<rparr>]"
    unfolding k1abc_def by code_simp
  have nz: "\<forall>c\<in>set [(1000::int, [k1abc])]. fst c \<noteq> 0" "(2000::int) \<noteq> 0"
    by simp_all
  have c3: "\<forall>item\<in>set (ingests 1800000 [] ([(1000, [k1abc])] @ [(2000, [k1abc\<lparr>timestamp := None\<rparr>])])).
      \<exists>t. timestamp item = Some t \<and> 2000 - t < 1800000"
    using run nz by blast
  have "set (retentionChange 2000 500 [k1abc]) =
     {item \<in> set [k1abc]. 2000 - ts_or (timestamp item) 2000 < 500}"
    using run by blast
  then have c4: "set (retentionChange 2000 500 [k1abc]) = {}"
    by (simp add: k1abc_def ts_or_def)
  show ?thesis
    unfolding list_all_iff using v c1 e c2 nz s c3 c4 by blast
qed

section \<open>The aggregator: merging a batch\<close>

lemma mergeBatch_snoc:
  "mergeBatch now m (xs @ [x]) = AList.update (key_of x) (stamp now x) (mergeBatch now m xs)"
  by (simp add: mergeBatch_def)

lemma mergeBatch_stores:
  "item \<in> set newData \<Longrightarrow>
   \<exists>item'\<in>set newData. key_of item' = key_of item \<and>
     map_of (mergeBatch now m newData) (key_of item) = Some (stamp now item')"
proof (induction newData rule: rev_induct)
  case Nil
  then show ?case by simp
next
  case (snoc x xs)
  show ?case
  proof (cases "key_of item = key_of x")
    case True
    then show ?thesis
      by (auto simp: mergeBatch_snoc update_conv')
  next
    case False
    then have "item \<in> set xs"
      using snoc.prems by auto
    then show ?thesis
      using snoc.IH False by (auto simp: mergeBatch_snoc update_conv')
  qed
qed

lemma update_others:
  "filter (\<lambda>p. fst p \<noteq> k) (AList.update k v al) = filter (\<lambda>p. fst p \<noteq> k) al"
  by (induction al) auto

text \<open>
  C6, as stated, fails: a report with no destination call, no frequency and no spotter is
  not skipped. It is stored under the key \<open>undefined-undefined-undefined\<close>, stamped with
  the clock, and is in the retained list after the ingest, beside the other report of the
  batch.
\<close>

theorem malformed_report_retained:
  "key_of unidentified = ''undefined-undefined-undefined'' \<and>
   ingest 2000 1800000 [] [unidentified, k1abc] =
     [unidentified\<lparr>timestamp := Some 2000\<rparr>, k1abc]"
  unfolding unidentified_def k1abc_def by code_simp

lemma key_of_stamp: "key_of (stamp now item) = key_of item"
  by (simp add: key_of_def stamp_def)

lemma keyed_update: "keyed m \<Longrightarrow> key_of v = k \<Longrightarrow> keyed (AList.update k v m)"
  unfolding keyed_def by (induction m) auto

lemma keyed_existingMap_aux:
  "keyed m \<Longrightarrow> keyed (foldl (\<lambda>m item. AList.update (key_of item) item m) m prev)"
  by (induction prev arbitrary: m) (simp_all add: keyed_update)

lemma keyed_existingMap: "keyed (existingMap prev)"
  using keyed_existingMap_aux [of "[]" prev] by (simp add: existingMap_def keyed_def)

lemma keyed_mergeBatch: "keyed m \<Longrightarrow> keyed (mergeBatch now m newData)"
  by (induction newData arbitrary: m) (simp_all add: mergeBatch_Nil mergeBatch_Cons keyed_update key_of_stamp)

lemma update_other_key:
  "k \<noteq> kb \<Longrightarrow>
   filter (\<lambda>p. fst p \<noteq> kb) (AList.update k v al) = AList.update k v (filter (\<lambda>p. fst p \<noteq> kb) al)"
  by (induction al) auto

text \<open>Away from one key, the merge of a batch is the merge of the batch without that key.\<close>

lemma mergeBatch_other_keys:
  "filter (\<lambda>p. fst p \<noteq> kb) (mergeBatch now m zs) =
   mergeBatch now (filter (\<lambda>p. fst p \<noteq> kb) m) (filter (\<lambda>i. key_of i \<noteq> kb) zs)"
proof (induction zs arbitrary: m)
  case Nil
  then show ?case by (simp add: mergeBatch_Nil)
next
  case (Cons a zs)
  show ?case
  proof (cases "key_of a = kb")
    case True
    then show ?thesis
      using Cons.IH [of "AList.update (key_of a) (stamp now a) m"]
      by (simp add: mergeBatch_Cons update_others)
  next
    case False
    then show ?thesis
      using Cons.IH [of "AList.update (key_of a) (stamp now a) m"]
      by (simp add: mergeBatch_Cons update_other_key)
  qed
qed

lemma keyed_values:
  "keyed m \<Longrightarrow>
   filter (\<lambda>i. key_of i \<noteq> kb) (map snd m) = map snd (filter (\<lambda>p. fst p \<noteq> kb) m)"
  unfolding keyed_def by (induction m) auto

lemma validItems_other_keys:
  "filter (\<lambda>i. key_of i \<noteq> key_of bad) (validItems now ret prev (xs @ bad # ys)) =
   filter (\<lambda>i. key_of i \<noteq> key_of bad) (validItems now ret prev (xs @ ys))"
proof -
  let ?P = "\<lambda>p::string \<times> 'a spot_scheme. fst p \<noteq> key_of bad"
  let ?Q = "\<lambda>i::'a spot_scheme. key_of i \<noteq> key_of bad"
  have m: "filter ?P (mergeBatch now (existingMap prev) (xs @ bad # ys)) =
      filter ?P (mergeBatch now (existingMap prev) (xs @ ys))"
    by (simp add: mergeBatch_other_keys)
  have k: "keyed (mergeBatch now (existingMap prev) zs)" for zs
    by (simp add: keyed_mergeBatch keyed_existingMap)
  have "filter ?Q (validItems now ret prev zs) =
      filter (fresh now ret) (map snd (filter ?P (mergeBatch now (existingMap prev) zs)))" for zs
  proof -
    have "filter ?Q (validItems now ret prev zs) =
        filter (fresh now ret) (filter ?Q (map snd (mergeBatch now (existingMap prev) zs)))"
      unfolding validItems_def by (simp add: conj_commute)
    then show ?thesis
      by (simp only: keyed_values [OF k])
  qed
  then show ?thesis
    by (simp only: m)
qed

lemma ingest_other_keys:
  assumes "length (validItems now ret prev (xs @ bad # ys)) \<le> 200"
    "length (validItems now ret prev (xs @ ys)) \<le> 200"
  shows "filter (\<lambda>i. key_of i \<noteq> key_of bad) (ingest now ret prev (xs @ bad # ys)) =
    filter (\<lambda>i. key_of i \<noteq> key_of bad) (ingest now ret prev (xs @ ys))"
  using assms validItems_other_keys [of bad now ret prev xs ys]
  by (simp add: ingest_def filter_sort)

lemma ingest_or_evicted:
  "set (ingest now ret prev newData) \<union> set (evicted now ret prev newData) =
   set (validItems now ret prev newData)"
  using ingest_evicted_mset [of now ret prev newData]
  by (metis set_mset_mset set_mset_union)

lemma stored_survives:
  assumes "item \<in> set newData"
  shows "\<exists>item'\<in>set newData. key_of item' = key_of item \<and>
     map_of (mergeBatch now (existingMap prev) newData) (key_of item) = Some (stamp now item') \<and>
     (fresh now ret (stamp now item') \<longrightarrow>
        stamp now item' \<in> set (ingest now ret prev newData) \<union> set (evicted now ret prev newData))"
proof -
  obtain item' where i: "item' \<in> set newData" "key_of item' = key_of item"
    "map_of (mergeBatch now (existingMap prev) newData) (key_of item) = Some (stamp now item')"
    using mergeBatch_stores [OF assms] by blast
  have "stamp now item' \<in> snd ` set (mergeBatch now (existingMap prev) newData)"
    using map_of_SomeD [OF i(3)] by force
  then have "fresh now ret (stamp now item') \<longrightarrow>
      stamp now item' \<in> set (validItems now ret prev newData)"
    by (simp add: validItems_def)
  then show ?thesis
    using i by (auto simp: ingest_or_evicted)
qed

lemma untimed_fresh:
  "timestamp item = None \<or> timestamp item = Some 0 \<Longrightarrow> 0 < ret \<Longrightarrow> fresh now ret (stamp now item)"
  by (auto simp: fresh_def stamp_def ts_or_def)


text \<open>
  C6, amended. No report is skipped: every report of the batch, with its identity fields or
  without them, has its key in the merged map, bound to the stamped copy of a report of the
  batch with that key, and when this copy passes the age test it is retained or is among the
  entries the bound of 200 drops; a report without a timestamp passes the age test for every
  positive window. The reports under the other keys are processed as they would be without
  it: the survivors of the eviction by age under the other keys are the same, in the same
  order, with the report and without it, and so are the retained entries under the other
  keys when the survivors number at most 200 both times.
\<close>

theorem merge_skips_nothing:
  "(\<forall>item\<in>set newData. \<exists>item'\<in>set newData. key_of item' = key_of item \<and>
      map_of (mergeBatch now (existingMap prev) newData) (key_of item) = Some (stamp now item') \<and>
      (fresh now ret (stamp now item') \<longrightarrow>
         stamp now item' \<in> set (ingest now ret prev newData) \<union> set (evicted now ret prev newData))) \<and>
   ((timestamp bad = None \<or> timestamp bad = Some 0) \<and> 0 < ret \<longrightarrow> fresh now ret (stamp now bad)) \<and>
   filter (\<lambda>i. key_of i \<noteq> key_of bad) (validItems now ret prev (xs @ bad # ys)) =
     filter (\<lambda>i. key_of i \<noteq> key_of bad) (validItems now ret prev (xs @ ys)) \<and>
   (length (validItems now ret prev (xs @ bad # ys)) \<le> 200 \<and>
    length (validItems now ret prev (xs @ ys)) \<le> 200 \<longrightarrow>
      filter (\<lambda>i. key_of i \<noteq> key_of bad) (ingest now ret prev (xs @ bad # ys)) =
        filter (\<lambda>i. key_of i \<noteq> key_of bad) (ingest now ret prev (xs @ ys)))"
proof -
  have a: "\<forall>item\<in>set newData. \<exists>item'\<in>set newData. key_of item' = key_of item \<and>
      map_of (mergeBatch now (existingMap prev) newData) (key_of item) = Some (stamp now item') \<and>
      (fresh now ret (stamp now item') \<longrightarrow>
         stamp now item' \<in> set (ingest now ret prev newData) \<union> set (evicted now ret prev newData))"
    using stored_survives [of _ newData now prev ret] by blast
  have b: "(timestamp bad = None \<or> timestamp bad = Some 0) \<and> 0 < ret \<longrightarrow>
      fresh now ret (stamp now bad)"
    using untimed_fresh [of bad ret now] by blast
  have c: "length (validItems now ret prev (xs @ bad # ys)) \<le> 200 \<and>
    length (validItems now ret prev (xs @ ys)) \<le> 200 \<longrightarrow>
      filter (\<lambda>i. key_of i \<noteq> key_of bad) (ingest now ret prev (xs @ bad # ys)) =
        filter (\<lambda>i. key_of i \<noteq> key_of bad) (ingest now ret prev (xs @ ys))"
    using ingest_other_keys [of now ret prev xs bad ys] by blast
  show ?thesis
    by (intro conjI a b validItems_other_keys c)
qed

theorem merge_skips_nothing_witness:
  "unidentified \<in> set [unidentified, k1abc] \<and>
   timestamp unidentified = None \<and> (0::int) < 1800000 \<and>
   fresh 2000 1800000 (stamp 2000 unidentified) \<and>
   map_of (mergeBatch 2000 (existingMap []) [unidentified, k1abc]) (key_of unidentified) =
     Some (stamp 2000 unidentified) \<and>
   stamp 2000 unidentified \<in> set (ingest 2000 1800000 [] ([] @ unidentified # [k1abc])) \<and>
   length (validItems 2000 1800000 [] ([] @ unidentified # [k1abc])) \<le> 200 \<and>
   length (validItems 2000 1800000 [] ([] @ [k1abc])) \<le> 200 \<and>
   filter (\<lambda>i. key_of i \<noteq> key_of unidentified) (ingest 2000 1800000 [] ([] @ unidentified # [k1abc])) =
     [k1abc] \<and>
   ingest 2000 1800000 [] ([] @ [k1abc]) = [k1abc]"
proof -
  note t = merge_skips_nothing [of "[unidentified, k1abc]" 2000 "[]" 1800000 unidentified "[]" "[k1abc]"]
  have k: "key_of k1abc \<noteq> key_of unidentified"
    unfolding unidentified_def k1abc_def by code_simp
  have ts: "timestamp unidentified = None" "(0::int) < 1800000"
    by (simp_all add: unidentified_def)
  have f: "fresh 2000 1800000 (stamp 2000 unidentified)"
    using t ts by blast
  have "\<exists>item'\<in>set [unidentified, k1abc]. key_of item' = key_of unidentified \<and>
      map_of (mergeBatch 2000 (existingMap []) [unidentified, k1abc]) (key_of unidentified) =
        Some (stamp 2000 item') \<and>
      (fresh 2000 1800000 (stamp 2000 item') \<longrightarrow>
         stamp 2000 item' \<in> set (ingest 2000 1800000 [] [unidentified, k1abc]) \<union>
           set (evicted 2000 1800000 [] [unidentified, k1abc]))"
    using t by simp
  then have m: "map_of (mergeBatch 2000 (existingMap []) [unidentified, k1abc]) (key_of unidentified) =
        Some (stamp 2000 unidentified)"
    and u: "stamp 2000 unidentified \<in> set (ingest 2000 1800000 [] [unidentified, k1abc]) \<union>
           set (evicted 2000 1800000 [] [unidentified, k1abc])"
    using k f by auto
  have l: "length (validItems 2000 1800000 [] ([] @ unidentified # [k1abc])) \<le> 200"
    "length (validItems 2000 1800000 [] ([] @ [k1abc])) \<le> 200"
    unfolding unidentified_def k1abc_def by code_simp+
  have ev: "evicted 2000 1800000 [] [unidentified, k1abc] = []"
    using l(1) by (simp add: evicted_def)
  have i: "stamp 2000 unidentified \<in> set (ingest 2000 1800000 [] ([] @ unidentified # [k1abc]))"
    using u ev by simp
  have one: "ingest 2000 1800000 [] ([] @ [k1abc]) = [k1abc]"
    unfolding k1abc_def by code_simp
  have "filter (\<lambda>i. key_of i \<noteq> key_of unidentified)
      (ingest 2000 1800000 [] ([] @ unidentified # [k1abc])) =
    filter (\<lambda>i. key_of i \<noteq> key_of unidentified) (ingest 2000 1800000 [] ([] @ [k1abc]))"
    using t l by blast
  then have o: "filter (\<lambda>i. key_of i \<noteq> key_of unidentified)
      (ingest 2000 1800000 [] ([] @ unidentified # [k1abc])) = [k1abc]"
    using k by (simp only: one) simp
  have mem: "unidentified \<in> set [unidentified, k1abc]"
    by simp
  show ?thesis
    by (intro conjI mem ts f m i l o one)
qed

text \<open>
  C7, as stated, fails: the entry stored with the timestamp 1000 is replaced at the clock
  2000 by an incoming report with the same key and no timestamp, and the stored timestamp
  becomes 2000; the original one is not preserved.
\<close>

theorem timestamp_not_preserved:
  "timestamp k1abc = Some 1000 \<and>
   ingest 2000 1800000 [k1abc] [k1abc\<lparr>timestamp := None\<rparr>] = [k1abc\<lparr>timestamp := Some 2000\<rparr>]"
  unfolding k1abc_def by code_simp

text \<open>
  C7, amended. The merge of one report binds its key to the incoming report, all fields
  taken from it, with the timestamp set to the incoming timestamp, or to the clock when the
  incoming report has none (or \<open>0\<close>); nothing of the entry stored before under this key
  is kept. The entries under the other keys, and their order, are unchanged; a new key goes
  to the end of the map.
\<close>

theorem merge_replaces_entry:
  "map_of (mergeBatch now m [item]) (key_of item) = Some (stamp now item) \<and>
   stamp now item = item\<lparr>timestamp := Some (ts_or (timestamp item) now)\<rparr> \<and>
   (timestamp item = None \<or> timestamp item = Some 0 \<longrightarrow> timestamp (stamp now item) = Some now) \<and>
   (timestamp item = Some t \<and> t \<noteq> 0 \<longrightarrow> timestamp (stamp now item) = Some t) \<and>
   (k \<noteq> key_of item \<longrightarrow> map_of (mergeBatch now m [item]) k = map_of m k) \<and>
   filter (\<lambda>p. fst p \<noteq> key_of item) (mergeBatch now m [item]) =
     filter (\<lambda>p. fst p \<noteq> key_of item) m \<and>
   map fst (mergeBatch now m [item]) =
     (if key_of item \<in> set (map fst m) then map fst m else map fst m @ [key_of item])"
  by (auto simp: mergeBatch_def update_conv' update_others update_keys stamp_def ts_or_def)

theorem merge_replaces_entry_witness:
  "timestamp (k1abc\<lparr>timestamp := None\<rparr>) = None \<and>
   timestamp (stamp 2000 (k1abc\<lparr>timestamp := None\<rparr>)) = Some 2000 \<and>
   timestamp k1abc = Some 1000 \<and> (1000::int) \<noteq> 0 \<and> timestamp (stamp 2000 k1abc) = Some 1000 \<and>
   key_of unidentified \<noteq> key_of k1abc \<and>
   map_of (mergeBatch 2000 [(key_of unidentified, unidentified), (key_of k1abc, k1abc)]
             [k1abc\<lparr>timestamp := None\<rparr>]) (key_of unidentified) = Some unidentified \<and>
   map_of (mergeBatch 2000 [(key_of unidentified, unidentified), (key_of k1abc, k1abc)]
             [k1abc\<lparr>timestamp := None\<rparr>]) (key_of k1abc) = Some (k1abc\<lparr>timestamp := Some 2000\<rparr>)"
proof -
  have k: "key_of unidentified \<noteq> key_of k1abc" "key_of (k1abc\<lparr>timestamp := None\<rparr>) = key_of k1abc"
    unfolding unidentified_def k1abc_def by code_simp+
  have t: "timestamp k1abc = Some 1000" "timestamp (k1abc\<lparr>timestamp := None\<rparr>) = None"
    by (simp_all add: k1abc_def)
  show ?thesis
    using merge_replaces_entry [of 2000 "[(key_of unidentified, unidentified), (key_of k1abc, k1abc)]"
        "k1abc\<lparr>timestamp := None\<rparr>" 0 "key_of unidentified"]
      merge_replaces_entry [of 2000 "[]" k1abc 1000 "key_of unidentified"] k t
    by (auto simp: ts_or_def)
qed

text \<open>
  C9 asks for a key that is injective on the triples of destination call, frequency and
  spotter. The key joins the three texts with \<open>-\<close>: the two reports below differ in all
  three fields, have the same key, and after one ingest of both only the second is retained.
\<close>

theorem key_collision:
  "(dxCall collide1, freq collide1, spotter collide1) \<noteq>
     (dxCall collide2, freq collide2, spotter collide2) \<and>
   key_of collide1 = ''W1AW-2-14074-K1ABC'' \<and> key_of collide2 = ''W1AW-2-14074-K1ABC'' \<and>
   ingest 2000 1800000 [] [collide1, collide2] = [collide2\<lparr>timestamp := Some 2000\<rparr>]"
  unfolding collide1_def collide2_def by code_simp

section \<open>Properties of the filter\<close>














section \<open>Properties of the reception reports\<close>

lemma or_num_truthy: "truthy_opt a \<Longrightarrow> or_num a b = a"
  by (simp add: or_num_def)

lemma or_num_falsy: "\<not> truthy_opt a \<Longrightarrow> or_num a b = b"
  by (simp add: or_num_def)

lemma locate_lat: "r_lat (locate now grid r) = or_num (r_lat r) (grid_coord lat (grid r))"
  by (simp add: locate_def)

lemma locate_lon: "r_lon (locate now grid r) = or_num (r_lon r) (grid_coord lon (grid r))"
  by (simp add: locate_def)

lemma processReports_located: "r \<in> set (processReports now grid n reports) \<Longrightarrow> located r"
  using set_take_subset [of n "filter located (map (locate now grid) (arr reports))"]
  by (auto simp: processReports_def)

lemma processReports_length: "length (processReports now grid n reports) \<le> n"
  by (simp add: processReports_def)

lemma processReports_all:
  "length (filter located (map (locate now grid) (arr reports))) \<le> n \<Longrightarrow>
   set (processReports now grid n reports) = {r \<in> locate now grid ` set (arr reports). located r}"
  by (auto simp: processReports_def)

lemma zero_without_grid:
  assumes "\<not> truthy_opt (r_lat r) \<or> \<not> truthy_opt (r_lon r)" "gridToLatLon (grid r) = None \<or> \<not> truthy_str (grid r)"
  shows "\<not> located (locate now grid r)"
  using assms
  by (auto simp: located_def locate_lat locate_lon or_num_def grid_coord_def truthy_opt_def)

lemma nonzero_kept:
  assumes "truthy_opt (r_lat r)" "truthy_opt (r_lon r)"
  shows "located (locate now grid r) \<and> r_lat (locate now grid r) = r_lat r \<and>
    r_lon (locate now grid r) = r_lon r"
  using assms by (simp add: located_def locate_lat locate_lon or_num_def)

lemma zero_with_grid:
  assumes "\<not> truthy_opt (r_lat r)" "truthy_str (grid r)"
  shows "r_lat (locate now grid r) = map_option lat (gridToLatLon (grid r))"
  using assms by (simp add: locate_lat or_num_def grid_coord_def)

lemma zero_lon_with_grid:
  assumes "\<not> truthy_opt (r_lon r)" "truthy_str (grid r)"
  shows "r_lon (locate now grid r) = map_option lon (gridToLatLon (grid r))"
  using assms by (simp add: locate_lon or_num_def grid_coord_def)

text \<open>
  C10, as stated, fails for a report whose coordinate is exactly zero and whose locator is
  given: the latitude \<open>0\<close> is falsy, so the latitude of the locator \<open>JJ50\<close> takes its
  place, and the report is retained with the latitude \<open>0.5\<close>.
\<close>

theorem zero_latitude_retained:
  "r_lat equator = Some (Fin 0) \<and>
   processedTx 0 100 (Some [equator]) = [equator\<lparr>r_lat := Some (Fin 0.5)\<rparr>]"
  unfolding equator_def by code_simp

lemma processReports_prefix:
  "prefix (processReports now grid n reports) (filter located (map (locate now grid) (arr reports)))"
  unfolding processReports_def by (rule take_is_prefix)

lemma processReports_count:
  "length (processReports now grid n reports) =
   min n (length (filter located (map (locate now grid) (arr reports))))"
  by (simp add: processReports_def min.commute)

lemma located_eq: "located = (\<lambda>r'. truthy_opt (r_lat r') \<and> truthy_opt (r_lon r'))"
  by (rule ext) (simp add: located_def)

text \<open>
  C10, amended. In each view the retained reports are the first \<open>maxSpots\<close> of the
  reports whose resolved latitude and longitude are both truthy, in the order received: a
  prefix of that list, of length \<open>maxSpots\<close> or of the whole list when it is shorter.
  A report with a latitude or longitude of exactly zero is excluded when its locator is
  absent, empty or too short to decode; with a locator, the coordinate of the locator takes
  the place of the falsy one. A report with both coordinates truthy keeps them and passes
  the test.
\<close>

theorem located_reports_retained:
  "prefix (processedTx now n txData)
     (filter (\<lambda>r'. truthy_opt (r_lat r') \<and> truthy_opt (r_lon r')) (map (locate now receiverGrid) (arr txData))) \<and>
   length (processedTx now n txData) =
     min n (length (filter (\<lambda>r'. truthy_opt (r_lat r') \<and> truthy_opt (r_lon r')) (map (locate now receiverGrid) (arr txData)))) \<and>
   prefix (processedRx now n rxData)
     (filter (\<lambda>r'. truthy_opt (r_lat r') \<and> truthy_opt (r_lon r')) (map (locate now senderGrid) (arr rxData))) \<and>
   length (processedRx now n rxData) =
     min n (length (filter (\<lambda>r'. truthy_opt (r_lat r') \<and> truthy_opt (r_lon r')) (map (locate now senderGrid) (arr rxData)))) \<and>
   (\<forall>r'\<in>set (processedTx now n txData) \<union> set (processedRx now n rxData).
      truthy_opt (r_lat r') \<and> truthy_opt (r_lon r')) \<and>
   ((r_lat r = Some (Fin 0) \<or> r_lon r = Some (Fin 0)) \<and>
    (\<not> truthy_str (grid r) \<or> gridToLatLon (grid r) = None) \<longrightarrow>
      \<not> (truthy_opt (r_lat (locate now grid r)) \<and> truthy_opt (r_lon (locate now grid r)))) \<and>
   (\<not> truthy_opt (r_lat r) \<and> truthy_str (grid r) \<longrightarrow>
      r_lat (locate now grid r) = map_option lat (gridToLatLon (grid r))) \<and>
   (\<not> truthy_opt (r_lon r) \<and> truthy_str (grid r) \<longrightarrow>
      r_lon (locate now grid r) = map_option lon (gridToLatLon (grid r))) \<and>
   (truthy_opt (r_lat r) \<and> truthy_opt (r_lon r) \<longrightarrow>
      truthy_opt (r_lat (locate now grid r)) \<and> truthy_opt (r_lon (locate now grid r)) \<and>
      r_lat (locate now grid r) = r_lat r \<and>
      r_lon (locate now grid r) = r_lon r)"
proof -
  have p: "prefix (processedTx now n txData)
      (filter (\<lambda>r'. truthy_opt (r_lat r') \<and> truthy_opt (r_lon r')) (map (locate now receiverGrid) (arr txData)))"
    "prefix (processedRx now n rxData)
      (filter (\<lambda>r'. truthy_opt (r_lat r') \<and> truthy_opt (r_lon r')) (map (locate now senderGrid) (arr rxData)))"
    unfolding processedTx_def processedRx_def located_eq [symmetric]
    by (rule processReports_prefix)+
  have l: "length (processedTx now n txData) =
      min n (length (filter (\<lambda>r'. truthy_opt (r_lat r') \<and> truthy_opt (r_lon r')) (map (locate now receiverGrid) (arr txData))))"
    "length (processedRx now n rxData) =
      min n (length (filter (\<lambda>r'. truthy_opt (r_lat r') \<and> truthy_opt (r_lon r')) (map (locate now senderGrid) (arr rxData))))"
    unfolding processedTx_def processedRx_def located_eq [symmetric]
    by (rule processReports_count)+
  have a: "\<forall>r'\<in>set (processedTx now n txData) \<union> set (processedRx now n rxData).
      truthy_opt (r_lat r') \<and> truthy_opt (r_lon r')"
    using processReports_located [of _ now receiverGrid n txData]
      processReports_located [of _ now senderGrid n rxData]
    by (auto simp: located_def processedTx_def processedRx_def)
  have c: "(r_lat r = Some (Fin 0) \<or> r_lon r = Some (Fin 0)) \<and>
    (\<not> truthy_str (grid r) \<or> gridToLatLon (grid r) = None) \<longrightarrow>
      \<not> (truthy_opt (r_lat (locate now grid r)) \<and> truthy_opt (r_lon (locate now grid r)))"
  proof
    assume h: "(r_lat r = Some (Fin 0) \<or> r_lon r = Some (Fin 0)) \<and>
      (\<not> truthy_str (grid r) \<or> gridToLatLon (grid r) = None)"
    then have "\<not> truthy_opt (r_lat r) \<or> \<not> truthy_opt (r_lon r)"
      by (auto simp: truthy_opt_def)
    then show "\<not> (truthy_opt (r_lat (locate now grid r)) \<and> truthy_opt (r_lon (locate now grid r)))"
      using h zero_without_grid [of r grid now] unfolding located_def by blast
  qed
  have d: "\<not> truthy_opt (r_lat r) \<and> truthy_str (grid r) \<longrightarrow>
      r_lat (locate now grid r) = map_option lat (gridToLatLon (grid r))"
    using zero_with_grid [of r grid now] by blast
  have e: "\<not> truthy_opt (r_lon r) \<and> truthy_str (grid r) \<longrightarrow>
      r_lon (locate now grid r) = map_option lon (gridToLatLon (grid r))"
    using zero_lon_with_grid [of r grid now] by blast
  have f: "truthy_opt (r_lat r) \<and> truthy_opt (r_lon r) \<longrightarrow>
      truthy_opt (r_lat (locate now grid r)) \<and> truthy_opt (r_lon (locate now grid r)) \<and>
      r_lat (locate now grid r) = r_lat r \<and>
      r_lon (locate now grid r) = r_lon r"
    using nonzero_kept [of r now grid] unfolding located_def by blast
  show ?thesis
    by (intro conjI p l a c d e f)
qed


theorem located_reports_retained_witness:
  "processedTx 0 1 (Some [boulder, equator]) = [boulder] \<and>
   filter (\<lambda>r'. truthy_opt (r_lat r') \<and> truthy_opt (r_lon r'))
     (map (locate 0 receiverGrid) (arr (Some [boulder, equator]))) =
     [boulder, equator\<lparr>r_lat := Some (Fin 0.5)\<rparr>] \<and>
   r_lat (equator\<lparr>receiverGrid := None\<rparr>) = Some (Fin 0) \<and>
   \<not> truthy_str (receiverGrid (equator\<lparr>receiverGrid := None\<rparr>)) \<and>
   \<not> (truthy_opt (r_lat (locate 0 receiverGrid (equator\<lparr>receiverGrid := None\<rparr>))) \<and>
      truthy_opt (r_lon (locate 0 receiverGrid (equator\<lparr>receiverGrid := None\<rparr>)))) \<and>
   truthy_opt (r_lat boulder) \<and> truthy_opt (r_lon boulder) \<and>
   r_lat (locate 0 receiverGrid boulder) = r_lat boulder \<and>
   \<not> truthy_opt (r_lat equator) \<and> truthy_str (receiverGrid equator) \<and>
   r_lat (locate 0 receiverGrid equator) = Some (Fin 0.5)"
proof -
  note cut = located_reports_retained [where now = 0 and n = 1
      and txData = "Some [boulder, equator]" and rxData = "None :: report list option"
      and grid = receiverGrid and r = "equator\<lparr>receiverGrid := None\<rparr>"]
  note bo = located_reports_retained [where now = 0 and n = 1
      and txData = "None :: report list option" and rxData = "None :: report list option"
      and grid = receiverGrid and r = boulder]
  note eq = located_reports_retained [where now = 0 and n = 1
      and txData = "None :: report list option" and rxData = "None :: report list option"
      and grid = receiverGrid and r = equator]
  have L: "filter (\<lambda>r'. truthy_opt (r_lat r') \<and> truthy_opt (r_lon r'))
     (map (locate 0 receiverGrid) (arr (Some [boulder, equator]))) =
     [boulder, equator\<lparr>r_lat := Some (Fin 0.5)\<rparr>]"
    unfolding equator_def boulder_def by code_simp
  have "prefix (processedTx 0 1 (Some [boulder, equator]))
      [boulder, equator\<lparr>r_lat := Some (Fin 0.5)\<rparr>]"
    "length (processedTx 0 1 (Some [boulder, equator])) = 1"
    using cut by (simp_all only: L) simp_all
  then have c0: "processedTx 0 1 (Some [boulder, equator]) = [boulder]"
    by (cases "processedTx 0 1 (Some [boulder, equator])") auto
  have h: "r_lat (equator\<lparr>receiverGrid := None\<rparr>) = Some (Fin 0)"
    "\<not> truthy_str (receiverGrid (equator\<lparr>receiverGrid := None\<rparr>))"
    "truthy_opt (r_lat boulder)" "truthy_opt (r_lon boulder)"
    "\<not> truthy_opt (r_lat equator)" "truthy_str (receiverGrid equator)"
    by (simp_all add: equator_def boulder_def truthy_str_def truthy_opt_def)
  have g: "map_option lat (gridToLatLon (receiverGrid equator)) = Some (Fin 0.5)"
    unfolding equator_def by code_simp
  have c1: "\<not> (truthy_opt (r_lat (locate 0 receiverGrid (equator\<lparr>receiverGrid := None\<rparr>))) \<and>
      truthy_opt (r_lon (locate 0 receiverGrid (equator\<lparr>receiverGrid := None\<rparr>))))"
    using cut h(1,2) by blast
  have c2: "r_lat (locate 0 receiverGrid boulder) = r_lat boulder"
    using bo h(3,4) by blast
  have "r_lat (locate 0 receiverGrid equator) =
      map_option lat (gridToLatLon (receiverGrid equator))"
    using eq h(5,6) by blast
  then have c3: "r_lat (locate 0 receiverGrid equator) = Some (Fin 0.5)"
    by (simp only: g)
  show ?thesis
    by (intro conjI c0 L h c1 c2 c3)
qed

end
